theory Spec2Isabelle
  imports Main
begin

section \<open>Go values, errors and panics\<close>

text \<open>
  A run of Go code either returns or panics. A panic is the left injection of a sum,
  so every function below that can index out of range, dereference nil or call a
  method of \<open>reflect.Value\<close> on a value of the wrong kind has the result type
  \<open>go_panic + 'a\<close>.
\<close>

datatype go_panic = NilPointerDereference | IndexOutOfRange | ReflectValueError

text \<open>
  The error values the package creates: its three sentinels, and the values built by
  \<open>errors.New\<close> and \<open>errors.Errorf\<close> (a format with one integer argument, as at every
  call of the source).
\<close>

datatype go_error =
    ErrNotStruct
  | ErrInvalidValidatorSyntax
  | ErrValidateForUnexportedFields
  | errors_New string
  | errors_Errorf string int

datatype ValidationError = ValidationError (Err: go_error)

text \<open>
  A value of the interface type \<open>error\<close>, by dynamic type: nil, one of the plain
  errors above, a \<open>ValidationError\<close> struct, or a \<open>ValidationErrors\<close> slice.
\<close>

datatype error =
    NilError
  | PlainError go_error
  | IsValidationError ValidationError
  | IsValidationErrors "ValidationError list"

text \<open>
  What \<open>v.Interface()\<close> holds, as the type switches of the checkers tell it apart:
  a value whose dynamic type is exactly \<open>string\<close>, \<open>int\<close>, \<open>[]string\<close> or
  \<open>[]int\<close>, or anything else (nil included). Go's \<open>int\<close> is taken as the
  mathematical integers; \<open>Atoi\<close> below only ever yields values of the 64-bit range.
\<close>

datatype dynamic_value =
    IsString string
  | IsInt int
  | IsStringSlice "string list"
  | IsIntSlice "int list"
  | IsOther

text \<open>
  The \<open>reflect.Value\<close> of a field. A field declared \<open>string\<close>, \<open>int\<close>,
  \<open>[]string\<close> or \<open>[]int\<close> has that kind and holds its value. A field declared with
  an interface type (\<open>any\<close>, or a named empty interface) has kind Interface:
  \<open>GoInterface t d\<close> is such a field, with \<open>t\<close> the \<open>String()\<close> of its type
  (\<open>interface {}\<close> for \<open>any\<close>) and \<open>d\<close> what the interface holds. Every other
  field is \<open>GoOther\<close>.
\<close>

datatype go_value =
    GoString string
  | GoInt int
  | GoStringSlice "string list"
  | GoIntSlice "int list"
  | GoOther
  | GoInterface string dynamic_value

text \<open>
  \<open>v.Interface()\<close>: the field's value, and for a field of kind Interface the value
  inside it. This is what the type switch of a checker looks at.
\<close>

fun Value_Interface :: "go_value \<Rightarrow> dynamic_value" where
  "Value_Interface (GoString s) = IsString s"
| "Value_Interface (GoInt n) = IsInt n"
| "Value_Interface (GoStringSlice slice) = IsStringSlice slice"
| "Value_Interface (GoIntSlice slice) = IsIntSlice slice"
| "Value_Interface GoOther = IsOther"
| "Value_Interface (GoInterface t d) = d"

text \<open>
  \<open>v.String()\<close> as the checkers call it, inside \<open>case string\<close>, where the switch
  has found the string \<open>s\<close>. For a value of kind String it is \<open>s\<close>; for any other
  kind \<open>String\<close> does not panic but gives the type between \<open><\<close> and \<open> Value>\<close>,
  so for a field of kind Interface it is that text and not the string held.
\<close>

definition Value_String :: "go_value \<Rightarrow> string \<Rightarrow> string" where
  "Value_String v s = (case v of GoInterface t d \<Rightarrow> ''<'' @ t @ '' Value>'' | _ \<Rightarrow> s)"

text \<open>
  \<open>v.Int()\<close> as the checkers call it, inside \<open>case int\<close>, where the switch has
  found the integer \<open>n\<close>. For a value of kind Int it is \<open>n\<close>; on a value of kind
  Interface \<open>Int\<close> panics.
\<close>

definition Value_Int :: "go_value \<Rightarrow> int \<Rightarrow> go_panic + int" where
  "Value_Int v n = (case v of GoInterface t d \<Rightarrow> Inl ReflectValueError | _ \<Rightarrow> Inr n)"

text \<open>
  What \<open>reflect\<close> gives for one field of a struct: its name, whether it is exported,
  the result of \<open>Tag.Lookup("validate")\<close> (\<open>None\<close> when the key is absent), and
  the field's value.
\<close>

record StructField =
  Name :: string
  IsExported :: bool
  Tag_Lookup_validate :: "string option"
  FieldValue :: go_value

datatype Kind =
    Invalid | Bool | Int | Int8 | Int16 | Int32 | Int64
  | Uint | Uint8 | Uint16 | Uint32 | Uint64 | Uintptr
  | Float32 | Float64 | Complex64 | Complex128
  | Array | Chan | Func | Interface | Map | Pointer | Slice | String | Struct | UnsafePointer

text \<open>
  The argument of \<open>Validate\<close>, of type \<open>any\<close>: the nil interface, or a value with the
  kind of its type and, for a struct, its fields in declaration order.
\<close>

datatype go_any = NilInterface | Value Kind "StructField list"

type_synonym checker_result = "go_panic + (bool \<times> error)"

text \<open>
  The order in which \<open>range\<close> visits the keys of a map is not specified by Go and
  differs from run to run. It is a parameter of the model: a \<open>map_order\<close> takes the
  tokens in the order they were inserted into \<open>tokensSet\<close> and gives the keys in the
  order the loop visits them. An order the runtime can produce lists every key once.
\<close>

type_synonym map_order = "string list \<Rightarrow> string list"

definition range_order_ok :: "map_order \<Rightarrow> string list \<Rightarrow> bool" where
  "range_order_ok ord tokens \<longleftrightarrow> distinct (ord tokens) \<and> set (ord tokens) = set tokens"

section \<open>Library functions: strings.Split, strconv.Atoi, fmt.Sprintf\<close>

text \<open>\<open>strings.Split(s, sep)\<close> for a separator of one byte; the result is never empty.\<close>

fun strings_Split :: "string \<Rightarrow> char \<Rightarrow> string list" where
  "strings_Split [] sep = [[]]"
| "strings_Split (c # cs) sep =
     (if c = sep then [] # strings_Split cs sep
      else (case strings_Split cs sep of
              [] \<Rightarrow> [[c]]
            | p # ps \<Rightarrow> (c # p) # ps))"

text \<open>Indexing a slice: out of range is a run-time panic.\<close>

definition index :: "'a list \<Rightarrow> nat \<Rightarrow> go_panic + 'a" where
  "index xs i = (if i < length xs then Inr (xs ! i) else Inl IndexOutOfRange)"

definition is_digit :: "char \<Rightarrow> bool" where
  "is_digit c \<longleftrightarrow> (48::nat) \<le> of_char c \<and> of_char c \<le> (57::nat)"

datatype NumError = ErrSyntax | ErrRange

text \<open>
  \<open>strconv.ParseUint(s, 10, 64)\<close>, byte by byte from the number \<open>n\<close> read so far
  (never negative):
  a byte that is not a decimal digit is a syntax error with the number 0; a digit
  that would take the number past the 64-bit unsigned range is a range error with
  the largest such number, returned at once, whatever bytes follow.
\<close>

fun ParseUint_digits :: "int \<Rightarrow> string \<Rightarrow> int \<times> NumError option" where
  "ParseUint_digits n [] = (n, None)"
| "ParseUint_digits n (c # s) =
     (if \<not> is_digit c then (0, Some ErrSyntax)
      else if n \<ge> 1844674407370955162 then (18446744073709551615, Some ErrRange)
      else (let n1 = n * 10 + (int (of_char c) - 48)
            in if n1 > 18446744073709551615 then (18446744073709551615, Some ErrRange)
               else ParseUint_digits n1 s))"

definition ParseUint :: "string \<Rightarrow> int \<times> NumError option" where
  "ParseUint s = (if s = [] then (0, Some ErrSyntax) else ParseUint_digits 0 s)"

text \<open>
  \<open>strconv.ParseInt(s, 10, 0)\<close> on a 64-bit platform: an optional sign, then
  \<open>ParseUint\<close>; a syntax error is passed on with the number 0, and a number outside
  the signed range is a range error with the nearest bound.
\<close>

definition ParseInt :: "string \<Rightarrow> int \<times> NumError option" where
  "ParseInt s =
     (case s of
        [] \<Rightarrow> (0, Some ErrSyntax)
      | c # cs \<Rightarrow>
          (let neg = (c = CHR ''-'');
               body = (if c = CHR ''+'' \<or> c = CHR ''-'' then cs else s)
           in case ParseUint body of (un, err) \<Rightarrow>
                if err = Some ErrSyntax then (0, err)
                else if \<not> neg \<and> un \<ge> 2 ^ 63 then (2 ^ 63 - 1, Some ErrRange)
                else if neg \<and> un > 2 ^ 63 then (- (2 ^ 63), Some ErrRange)
                else (if neg then - un else un, None)))"

text \<open>The digit loop of the fast path of \<open>Atoi\<close>.\<close>

fun Atoi_digits :: "int \<Rightarrow> string \<Rightarrow> int \<times> bool" where
  "Atoi_digits n [] = (n, False)"
| "Atoi_digits n (ch # s) =
     (if \<not> is_digit ch then (0, True)
      else Atoi_digits (n * 10 + (int (of_char ch) - 48)) s)"

text \<open>
  \<open>strconv.Atoi\<close> on a 64-bit platform, as the pair of its results: the number and
  whether the error is non-nil. Strings of 1 to 18 bytes take the fast path (sign,
  then digits; no overflow is possible); the empty string and longer strings go
  through \<open>ParseInt\<close>.
\<close>

definition Atoi :: "string \<Rightarrow> int \<times> bool" where
  "Atoi s =
     (case s of
        c # cs \<Rightarrow>
          if length s < 19
          then (let digits = (if c = CHR ''-'' \<or> c = CHR ''+'' then cs else s)
                in if length digits < 1 then (0, True)
                   else (case Atoi_digits 0 digits of (n, err) \<Rightarrow>
                           if err then (0, True)
                           else (if c = CHR ''-'' then - n else n, False)))
          else (case ParseInt s of (i64, err) \<Rightarrow> (i64, err \<noteq> None))
      | [] \<Rightarrow> (case ParseInt s of (i64, err) \<Rightarrow> (i64, err \<noteq> None)))"

fun decimal :: "nat \<Rightarrow> string" where
  "decimal n = (if n < 10 then [''0123456789'' ! n]
                else decimal (n div 10) @ [''0123456789'' ! (n mod 10)])"

declare decimal.simps [simp del]

definition itoa :: "int \<Rightarrow> string" where
  "itoa i = (if i < 0 then CHR ''-'' # decimal (nat (- i)) else decimal (nat i))"

text \<open>
  \<open>fmt.Sprintf(format, i)\<close> for the formats of the source, which hold the one verb
  \<open>%d\<close>: the text before the verb, the decimal form of \<open>i\<close>, the text after it.
\<close>

fun Sprintf :: "string \<Rightarrow> int \<Rightarrow> string" where
  "Sprintf [] i = []"
| "Sprintf [c] i = [c]"
| "Sprintf (c # d # s) i =
     (if c = CHR ''%'' \<and> d = CHR ''d'' then itoa i @ s else c # Sprintf (d # s) i)"

section \<open>The error strings\<close>

fun go_error_Error :: "go_error \<Rightarrow> string" where
  "go_error_Error ErrNotStruct = ''wrong argument given, should be a struct''"
| "go_error_Error ErrInvalidValidatorSyntax = ''invalid validator syntax''"
| "go_error_Error ErrValidateForUnexportedFields = ''validation for unexported field is not allowed''"
| "go_error_Error (errors_New message) = message"
| "go_error_Error (errors_Errorf format i) = Sprintf format i"

definition ValidationError_Error :: "ValidationError \<Rightarrow> string" where
  "ValidationError_Error ve = go_error_Error (Err ve)"

text \<open>\<open>ValidationErrors.Error\<close>: the loop that appends each message to \<open>res\<close>.\<close>

fun ValidationErrors_Error_loop :: "string \<Rightarrow> ValidationError list \<Rightarrow> string" where
  "ValidationErrors_Error_loop res [] = res"
| "ValidationErrors_Error_loop res (v # vs) = ValidationErrors_Error_loop (res @ go_error_Error (Err v)) vs"

definition ValidationErrors_Error :: "ValidationError list \<Rightarrow> string" where
  "ValidationErrors_Error vs = ValidationErrors_Error_loop [] vs"

section \<open>The checkers\<close>

abbreviation failed :: "go_error \<Rightarrow> bool \<times> error" where
  "failed e \<equiv> (False, IsValidationError (ValidationError e))"

abbreviation passed :: "bool \<times> error" where
  "passed \<equiv> (True, NilError)"

text \<open>
  Inside a case of a type switch the source asserts the same type once more
  (\<open>slice, ok = v.Interface().([]string)\<close>) and returns a syntax failure when
  \<open>ok\<close> is false. The switch has already fixed the dynamic type, so the assertion
  always holds and that return is never taken; the checkers below go straight to
  the loop.
\<close>

text \<open>
  The loops \<open>for i, elem := range slice\<close> of the checkers: return the failure built
  from the format and the position at the first element the test rejects, success
  after the last element.
\<close>

fun range_slice :: "('a \<Rightarrow> bool) \<Rightarrow> string \<Rightarrow> nat \<Rightarrow> 'a list \<Rightarrow> bool \<times> error" where
  "range_slice rejects format i [] = passed"
| "range_slice rejects format i (elem # slice) =
     (if rejects elem then failed (errors_Errorf format (int i))
      else range_slice rejects format (Suc i) slice)"

definition validateLen :: "go_value \<Rightarrow> string \<Rightarrow> checker_result" where
  "validateLen v value =
     (case Atoi value of (expected, err) \<Rightarrow>
        if err then Inr (failed ErrInvalidValidatorSyntax)
        else (case Value_Interface v of
                IsString s \<Rightarrow>
                  if int (length (Value_String v s)) \<noteq> expected
                  then Inr (failed (errors_New ''lengths don't match''))
                  else Inr passed
              | IsStringSlice slice \<Rightarrow>
                  Inr (range_slice (\<lambda>elem. int (length elem) \<noteq> expected)
                         ''The string on position %d is shorter than allowed'' 0 slice)
              | _ \<Rightarrow> Inr (failed ErrInvalidValidatorSyntax)))"

text \<open>
  The loop of \<open>validateIn\<close> over the keys of \<open>tokensSet\<close> for a value the switch
  found to be the \<open>int\<close> \<open>n\<close>, in the order the runtime visits the keys. \<open>v.Int()\<close>
  is called for each key that parses.
\<close>

fun validateIn_int_loop :: "go_value \<Rightarrow> int \<Rightarrow> string list \<Rightarrow> checker_result" where
  "validateIn_int_loop v n [] = Inr (failed (errors_New ''Field value isn't allowed''))"
| "validateIn_int_loop v n (key # keys) =
     (case Atoi key of (val, err) \<Rightarrow>
        if err then Inr (failed ErrInvalidValidatorSyntax)
        else (case Value_Int v n of
                Inl p \<Rightarrow> Inl p
              | Inr vInt \<Rightarrow>
                  if val = vInt then Inr passed
                  else validateIn_int_loop v n keys))"

text \<open>
  The loop that fills \<open>tokensSetInt\<close> for an \<open>[]int\<close> value: \<open>None\<close> when a key does
  not parse.
\<close>

fun validateIn_tokensSetInt :: "string list \<Rightarrow> int set \<Rightarrow> int set option" where
  "validateIn_tokensSetInt [] tokensSetInt = Some tokensSetInt"
| "validateIn_tokensSetInt (elem # keys) tokensSetInt =
     (case Atoi elem of (elemInt, err) \<Rightarrow>
        if err then None
        else validateIn_tokensSetInt keys (insert elemInt tokensSetInt))"

definition validateIn :: "map_order \<Rightarrow> go_value \<Rightarrow> string \<Rightarrow> checker_result" where
  "validateIn ord v value =
     (if length value = 0 then Inr (failed (errors_New ''Field value isn't allowed''))
      else (let tokens = strings_Split value CHR '','';
                tokensSet = set tokens;
                keys = ord tokens
            in case Value_Interface v of
                 IsString s \<Rightarrow>
                   if Value_String v s \<in> tokensSet then Inr passed
                   else Inr (failed (errors_New ''Field value isn't allowed''))
               | IsInt n \<Rightarrow> validateIn_int_loop v n keys
               | IsStringSlice slice \<Rightarrow>
                   Inr (range_slice (\<lambda>elem. elem \<notin> tokensSet)
                          ''The string on position %d is not allowed'' 0 slice)
               | IsIntSlice slice \<Rightarrow>
                   (case validateIn_tokensSetInt keys {} of
                      None \<Rightarrow> Inr (failed ErrInvalidValidatorSyntax)
                    | Some tokensSetInt \<Rightarrow>
                        Inr (range_slice (\<lambda>elem. elem \<notin> tokensSetInt)
                               ''The integer on position %d is less than allowed'' 0 slice))
               | IsOther \<Rightarrow> Inr (failed ErrInvalidValidatorSyntax)))"

definition validateMin :: "go_value \<Rightarrow> string \<Rightarrow> checker_result" where
  "validateMin v value =
     (case Atoi value of (minv, err) \<Rightarrow>
        if err then Inr (failed ErrInvalidValidatorSyntax)
        else (case Value_Interface v of
                IsString s \<Rightarrow>
                  if int (length (Value_String v s)) \<ge> minv then Inr passed
                  else Inr (failed (errors_New ''String length is less than allowed''))
              | IsInt n \<Rightarrow>
                  (case Value_Int v n of
                     Inl p \<Rightarrow> Inl p
                   | Inr vInt \<Rightarrow>
                       if vInt \<ge> minv then Inr passed
                       else Inr (failed (errors_New ''Integer is less than allowed'')))
              | IsIntSlice slice \<Rightarrow>
                  Inr (range_slice (\<lambda>elem. elem < minv)
                         ''The integer on position %d is less than allowed'' 0 slice)
              | IsStringSlice slice \<Rightarrow>
                  Inr (range_slice (\<lambda>elem. int (length elem) < minv)
                         ''The string on position %d is shorter than allowed'' 0 slice)
              | IsOther \<Rightarrow> Inr (failed ErrInvalidValidatorSyntax)))"

text \<open>
  \<open>validateBetween\<close> indexes \<open>limits[0]\<close> and \<open>limits[1]\<close> without a length check, and
  the error of the first \<open>Atoi\<close> is overwritten by the second before it is tested.
\<close>

definition validateBetween :: "go_value \<Rightarrow> string \<Rightarrow> checker_result" where
  "validateBetween v value =
     (let limits = strings_Split value CHR '','' in
      case index limits 0 of
        Inl p \<Rightarrow> Inl p
      | Inr limit0 \<Rightarrow>
         (case Atoi limit0 of (minv, err0) \<Rightarrow>
            (case index limits 1 of
               Inl p \<Rightarrow> Inl p
             | Inr limit1 \<Rightarrow>
                (case Atoi limit1 of (maxv, err) \<Rightarrow>
                   if err then Inr (failed ErrInvalidValidatorSyntax)
                   else (case Value_Interface v of
                           IsString s \<Rightarrow>
                             if minv \<le> int (length (Value_String v s)) \<and>
                                int (length (Value_String v s)) \<le> maxv
                             then Inr passed
                             else Inr (failed (errors_New ''String length is not allowed''))
                         | IsInt n \<Rightarrow>
                             (case Value_Int v n of
                                Inl p \<Rightarrow> Inl p
                              | Inr vInt \<Rightarrow>
                                  if minv \<le> vInt \<and> vInt \<le> maxv then Inr passed
                                  else Inr (failed (errors_New ''Integer is more than allowed'')))
                         | IsIntSlice slice \<Rightarrow>
                             Inr (range_slice (\<lambda>elem. elem > maxv \<or> elem < minv)
                                    ''The integer on position %d is more than allowed'' 0 slice)
                         | IsStringSlice slice \<Rightarrow>
                             Inr (range_slice (\<lambda>elem. int (length elem) > maxv \<or> int (length elem) < minv)
                                    ''The string on position %d is longer than allowed'' 0 slice)
                         | IsOther \<Rightarrow> Inr (failed ErrInvalidValidatorSyntax))))))"

definition validateMax :: "go_value \<Rightarrow> string \<Rightarrow> checker_result" where
  "validateMax v value =
     (case Atoi value of (maxv, err) \<Rightarrow>
        if err then Inr (failed ErrInvalidValidatorSyntax)
        else (case Value_Interface v of
                IsString s \<Rightarrow>
                  if int (length (Value_String v s)) \<le> maxv then Inr passed
                  else Inr (failed (errors_New ''String length is more than allowed''))
              | IsInt n \<Rightarrow>
                  (case Value_Int v n of
                     Inl p \<Rightarrow> Inl p
                   | Inr vInt \<Rightarrow>
                       if vInt \<le> maxv then Inr passed
                       else Inr (failed (errors_New ''Integer is more than allowed'')))
              | IsIntSlice slice \<Rightarrow>
                  Inr (range_slice (\<lambda>elem. elem > maxv)
                         ''The integer on position %d is more than allowed'' 0 slice)
              | IsStringSlice slice \<Rightarrow>
                  Inr (range_slice (\<lambda>elem. int (length elem) > maxv)
                         ''The string on position %d is longer than allowed'' 0 slice)
              | IsOther \<Rightarrow> Inr (failed ErrInvalidValidatorSyntax)))"

section \<open>Validate\<close>

text \<open>The dispatch table \<open>validators\<close>, filled with the five checkers.\<close>

definition validators :: "map_order \<Rightarrow> string \<Rightarrow> (go_value \<Rightarrow> string \<Rightarrow> checker_result) option" where
  "validators ord =
     [''len'' \<mapsto> validateLen,
      ''in'' \<mapsto> validateIn ord,
      ''min'' \<mapsto> validateMin,
      ''max'' \<mapsto> validateMax,
      ''between'' \<mapsto> validateBetween]"

text \<open>
  One pass of the loop body over a field, from the errors \<open>vs\<close> collected so far:
  the loop goes on with the errors collected after this field, or \<open>Validate\<close>
  returns at once.
\<close>

datatype loop_step = Continue "ValidationError list" | Return error

definition Validate_field :: "map_order \<Rightarrow> StructField \<Rightarrow> ValidationError list \<Rightarrow> go_panic + loop_step" where
  "Validate_field ord curField vs =
     (case Tag_Lookup_validate curField of
        None \<Rightarrow> Inr (Continue vs)
      | Some tagValue \<Rightarrow>
          if \<not> IsExported curField
          then Inr (Continue (vs @ [ValidationError ErrValidateForUnexportedFields]))
          else (let rule = strings_Split tagValue CHR '':'' in
                if length rule \<noteq> 2
                then Inr (Continue (vs @ [ValidationError ErrInvalidValidatorSyntax]))
                else (case validators ord (rule ! 0) of
                        None \<Rightarrow> Inr (Continue (vs @ [ValidationError (errors_New ''Unexpected validator option'')]))
                      | Some validator \<Rightarrow>
                          (case validator (FieldValue curField) (rule ! 1) of
                             Inl p \<Rightarrow> Inl p
                           | Inr (ok, err) \<Rightarrow>
                               if \<not> ok
                               then (case err of
                                       IsValidationError validationErr \<Rightarrow> Inr (Continue (vs @ [validationErr]))
                                     | _ \<Rightarrow> Inr (Return err))
                               else Inr (Continue vs)))))"

text \<open>
  The loop over the fields, from index \<open>i\<close>; the map order may differ at every
  field, so it is given per index. After the last field: nil when nothing was
  collected, the collected errors otherwise.
\<close>

fun Validate_loop :: "(nat \<Rightarrow> map_order) \<Rightarrow> nat \<Rightarrow> StructField list \<Rightarrow> ValidationError list \<Rightarrow> go_panic + error" where
  "Validate_loop ord i [] vs = Inr (if length vs = 0 then NilError else IsValidationErrors vs)"
| "Validate_loop ord i (curField # rest) vs =
     (case Validate_field (ord i) curField vs of
        Inl p \<Rightarrow> Inl p
      | Inr (Return err) \<Rightarrow> Inr err
      | Inr (Continue vs') \<Rightarrow> Validate_loop ord (Suc i) rest vs')"

text \<open>
  \<open>reflect.TypeOf(nil)\<close> is the nil \<open>Type\<close>, and calling \<open>Kind\<close> on it panics; for every
  other argument the kind is compared with \<open>reflect.Struct\<close> before any field is read.
\<close>

definition Validate :: "(nat \<Rightarrow> map_order) \<Rightarrow> go_any \<Rightarrow> go_panic + error" where
  "Validate ord v =
     (case v of
        NilInterface \<Rightarrow> Inl NilPointerDereference
      | Value kind flds \<Rightarrow>
          if kind \<noteq> Struct then Inr (PlainError ErrNotStruct)
          else Validate_loop ord 0 flds [])"

text \<open>
  Two views of one pass of the loop body, started from no collected errors: the errors
  a field adds to the aggregate, and the panic, if any, that evaluating the field
  ends in.
\<close>

definition field_entries :: "map_order \<Rightarrow> StructField \<Rightarrow> ValidationError list" where
  "field_entries ord curField =
     (case Validate_field ord curField [] of Inr (Continue es) \<Rightarrow> es | _ \<Rightarrow> [])"

definition field_panic :: "map_order \<Rightarrow> StructField \<Rightarrow> go_panic option" where
  "field_panic ord curField =
     (case Validate_field ord curField [] of Inl p \<Rightarrow> Some p | Inr step \<Rightarrow> None)"

section \<open>The spec's check of a sequence\<close>

text \<open>
  The spec's words for a constraint over a sequence: every element has to satisfy the
  constraint; the 0-based position of the first element that does not is reported,
  and only that one. \<open>spec_first_failing\<close> is that position (\<open>None\<close> when every
  element satisfies the constraint), \<open>spec_sequence_check\<close> the result the spec
  asks for, with the source's message format. These two follow the spec and are
  compared with the checkers below.
\<close>

definition spec_first_failing :: "('a \<Rightarrow> bool) \<Rightarrow> 'a list \<Rightarrow> nat option" where
  "spec_first_failing satisfies xs =
     (if list_all satisfies xs then None else Some (length (takeWhile satisfies xs)))"

definition spec_sequence_check :: "('a \<Rightarrow> bool) \<Rightarrow> string \<Rightarrow> 'a list \<Rightarrow> bool \<times> error" where
  "spec_sequence_check satisfies format xs =
     (case spec_first_failing satisfies xs of
        None \<Rightarrow> passed
      | Some i \<Rightarrow> failed (errors_Errorf format (int i)))"

text \<open>The definitions a concrete run unfolds.\<close>

lemmas eval_defs = Validate_def Validate_field_def validators_def validateLen_def validateIn_def
  validateMin_def validateMax_def validateBetween_def index_def Atoi_def is_digit_def
  field_entries_def field_panic_def Value_String_def Value_Int_def

section \<open>Facts about strings.Split\<close>

lemma strings_Split_not_Nil: "strings_Split s sep \<noteq> []"
  by (induction s) (auto split: list.splits)

lemma strings_Split_append:
  "sep \<notin> set a \<Longrightarrow> strings_Split (a @ sep # r) sep = a # strings_Split r sep"
  by (induction a) (auto split: list.splits)

lemma strings_Split_no_sep: "sep \<notin> set a \<Longrightarrow> strings_Split a sep = [a]"
  by (induction a) (auto split: list.splits)

section \<open>The guard of Validate\<close>

lemma Validate_not_struct:
  "kind \<noteq> Struct \<Longrightarrow> Validate ord (Value kind flds) = Inr (PlainError ErrNotStruct)"
  by (simp add: Validate_def)

text \<open>
  Claim C2. Every argument that is not a struct, nil included, should make \<open>Validate\<close>
  return \<open>ErrNotStruct\<close> without a panic. The guard does so for every value that has a
  type (\<open>Validate_not_struct\<close>), but for the nil interface \<open>reflect.TypeOf\<close> gives the
  nil \<open>Type\<close> and the call of \<open>Kind\<close> on it panics: \<open>Validate(nil)\<close> does not return.
\<close>

theorem Validate_nil_interface_panics:
  "Validate ord NilInterface = Inl NilPointerDereference"
  by (simp add: Validate_def)

section \<open>The between checker\<close>

text \<open>
  Claim C1. A between parameter whose limits do not parse should always give
  \<open>ErrInvalidValidatorSyntax\<close>. The code does so only when the second limit fails to
  parse. With an empty parameter or no comma, \<open>limits[1]\<close> is out of range and the
  checker, and \<open>Validate\<close> with it, panics; with a first limit that does not parse,
  the lower bound is silently 0 and the field is judged against it: accepted, or
  rejected with a value failure.
\<close>

theorem validateBetween_unparsed_limits:
  "validateBetween (GoString ''abc'') '''' = Inl IndexOutOfRange \<and>
   validateBetween (GoString ''abc'') ''5'' = Inl IndexOutOfRange \<and>
   Validate (\<lambda>i. remdups)
     (Value Struct [\<lparr>Name = ''F'', IsExported = True, Tag_Lookup_validate = Some ''between:5'',
                     FieldValue = GoString ''abc''\<rparr>]) = Inl IndexOutOfRange \<and>
   Atoi ''a'' = (0, True) \<and>
   validateBetween (GoString ''abc'') ''a,5'' = Inr passed \<and>
   validateBetween (GoString ''abcdefgh'') ''a,5'' =
     Inr (failed (errors_New ''String length is not allowed'')) \<and>
   validateBetween (GoString ''abc'') ''5,a'' = Inr (failed ErrInvalidValidatorSyntax)"
  by (simp add: eval_defs)

text \<open>
  Claim C10. The between checker reads only the first two comma-separated parts of
  its parameter: whatever follows a second comma changes nothing, for every field
  value; a third part is not a syntax failure.
\<close>

theorem validateBetween_ignores_extra_limits:
  assumes "CHR '','' \<notin> set a" and "CHR '','' \<notin> set b"
  shows "validateBetween v (a @ '','' @ b @ '','' @ extra) = validateBetween v (a @ '','' @ b)"
proof -
  have three: "strings_Split (a @ '','' @ b @ '','' @ extra) CHR '','' =
                 a # b # strings_Split extra CHR '',''"
    using assms by (simp add: strings_Split_append)
  have two: "strings_Split (a @ '','' @ b) CHR '','' = [a, b]"
    using assms by (simp add: strings_Split_append strings_Split_no_sep)
  show ?thesis
    unfolding validateBetween_def three two by (simp add: index_def)
qed

theorem validateBetween_ignores_extra_limits_witness:
  "CHR '','' \<notin> set ''1'' \<and> CHR '','' \<notin> set ''5'' \<and>
   validateBetween (GoInt 3) ''1,5,999'' = validateBetween (GoInt 3) ''1,5'' \<and>
   validateBetween (GoInt 3) ''1,5,999'' = Inr passed \<and>
   validateBetween (GoInt 7) ''1,5,999'' = Inr (failed (errors_New ''Integer is more than allowed''))"
  using validateBetween_ignores_extra_limits [of "''1''" "''5''" "GoInt 3" "''999''"]
  by (simp add: eval_defs)

section \<open>Unexported fields\<close>



section \<open>What the checkers return\<close>

lemma range_slice_cases:
  "range_slice rejects format i slice = passed \<or>
   (\<exists>n. range_slice rejects format i slice = failed (errors_Errorf format n))"
  by (induction slice arbitrary: i) auto

lemma range_slice_result:
  "range_slice rejects format i slice = passed \<or>
   (\<exists>e. range_slice rejects format i slice = failed e)"
  using range_slice_cases [of rejects format i slice] by auto

lemma Value_Int_cases: "Value_Int v n = Inl ReflectValueError \<or> Value_Int v n = Inr n"
  by (cases v) (simp_all add: Value_Int_def)

lemma validateIn_int_loop_cases:
  "(\<exists>p. validateIn_int_loop v n keys = Inl p) \<or> validateIn_int_loop v n keys = Inr passed \<or>
   (\<exists>e. validateIn_int_loop v n keys = Inr (failed e))"
proof (induction keys)
  case Nil
  show ?case by simp
next
  case (Cons key keys)
  obtain val err where parsed: "Atoi key = (val, err)"
    by (cases "Atoi key")
  from Value_Int_cases [of v n] show ?case
  proof
    assume "Value_Int v n = Inl ReflectValueError"
    with parsed show ?thesis by simp
  next
    assume "Value_Int v n = Inr n"
    with parsed Cons.IH show ?thesis
      by (cases err; cases "val = n"; simp)
  qed
qed

lemma validateLen_result:
  "(\<exists>p. validateLen v value = Inl p) \<or> validateLen v value = Inr passed \<or>
   (\<exists>e. validateLen v value = Inr (failed e))"
  unfolding validateLen_def
  by (cases "Value_Interface v"; cases "Atoi value"; simp add: range_slice_result)

lemma validateMin_result:
  "(\<exists>p. validateMin v value = Inl p) \<or> validateMin v value = Inr passed \<or>
   (\<exists>e. validateMin v value = Inr (failed e))"
  unfolding validateMin_def
  using Value_Int_cases [of v]
  by (cases "Value_Interface v"; cases "Atoi value"; auto simp: range_slice_result split: sum.splits)

lemma validateMax_result:
  "(\<exists>p. validateMax v value = Inl p) \<or> validateMax v value = Inr passed \<or>
   (\<exists>e. validateMax v value = Inr (failed e))"
  unfolding validateMax_def
  using Value_Int_cases [of v]
  by (cases "Value_Interface v"; cases "Atoi value"; auto simp: range_slice_result split: sum.splits)

lemma validateIn_result:
  "(\<exists>p. validateIn ord v value = Inl p) \<or> validateIn ord v value = Inr passed \<or>
   (\<exists>e. validateIn ord v value = Inr (failed e))"
  unfolding validateIn_def Let_def
  using validateIn_int_loop_cases [of v _ "ord (strings_Split value CHR '','')"]
  by (cases "Value_Interface v"; simp add: range_slice_result split: option.splits)

lemma validateBetween_result:
  "(\<exists>p. validateBetween v value = Inl p) \<or> validateBetween v value = Inr passed \<or>
   (\<exists>e. validateBetween v value = Inr (failed e))"
  unfolding validateBetween_def Let_def index_def
  using Value_Int_cases [of v]
  by (cases "Value_Interface v"; auto simp: range_slice_result split: prod.splits sum.splits)

lemma validators_cases:
  assumes "validators ord name = Some validator"
  shows "name = ''len'' \<and> validator = validateLen \<or>
         name = ''in'' \<and> validator = validateIn ord \<or>
         name = ''min'' \<and> validator = validateMin \<or>
         name = ''max'' \<and> validator = validateMax \<or>
         name = ''between'' \<and> validator = validateBetween"
  using assms by (auto simp: validators_def split: if_splits)

lemma validators_result:
  assumes "validators ord name = Some validator"
  shows "(\<exists>p. validator v value = Inl p) \<or> validator v value = Inr passed \<or>
         (\<exists>e. validator v value = Inr (failed e))"
  using validators_cases [OF assms]
    validateLen_result [of v "value"] validateIn_result [of ord v "value"]
    validateMin_result [of v "value"] validateMax_result [of v "value"]
    validateBetween_result [of v "value"]
  by blast

section \<open>The loop of Validate, field by field\<close>

lemma Validate_field_Nil:
  "(\<exists>p. Validate_field ord f [] = Inl p) \<or>
   (\<exists>es. length es \<le> 1 \<and> Validate_field ord f [] = Inr (Continue es))"
proof (cases "Tag_Lookup_validate f")
  case None
  then show ?thesis by (simp add: Validate_field_def)
next
  case (Some tagValue)
  note tag = this
  show ?thesis
  proof (cases "validators ord (strings_Split tagValue CHR '':'' ! 0)")
    case None
    with tag show ?thesis by (simp add: Validate_field_def Let_def)
  next
    case (Some validator)
    from validators_result [OF Some, of "FieldValue f" "strings_Split tagValue CHR '':'' ! 1"]
      tag Some
    show ?thesis
      by (auto simp: Validate_field_def Let_def)
  qed
qed

lemma Validate_field_append:
  "Validate_field ord f vs =
     (case Validate_field ord f [] of
        Inl p \<Rightarrow> Inl p
      | Inr (Continue es) \<Rightarrow> Inr (Continue (vs @ es))
      | Inr (Return err) \<Rightarrow> Inr (Return err))"
  by (simp add: Validate_field_def Let_def split: option.splits sum.splits prod.splits error.splits)

lemma Validate_field_step:
  "Validate_field ord f vs =
     (case field_panic ord f of
        Some p \<Rightarrow> Inl p
      | None \<Rightarrow> Inr (Continue (vs @ field_entries ord f)))"
  using Validate_field_Nil [of ord f]
  by (subst Validate_field_append) (auto simp: field_panic_def field_entries_def)

lemma field_entries_length: "length (field_entries ord f) \<le> 1"
  using Validate_field_Nil [of ord f] by (auto simp: field_entries_def)

lemma Validate_loop_char:
  "Validate_loop ords i flds vs =
     (case List.map_filter (\<lambda>(j, f). field_panic (ords j) f) (enumerate i flds) of
        p # later \<Rightarrow> Inl p
      | [] \<Rightarrow>
          Inr (let es = vs @ concat (map (\<lambda>(j, f). field_entries (ords j) f) (enumerate i flds))
               in if es = [] then NilError else IsValidationErrors es))"
proof (induction flds arbitrary: i vs)
  case Nil
  then show ?case by (simp add: map_filter_simps)
next
  case (Cons f flds)
  show ?case
    by (cases "field_panic (ords i) f")
       (simp_all add: Validate_field_step Cons.IH Let_def map_filter_simps split: list.splits)
qed

lemma Validate_struct_char:
  "Validate ords (Value Struct flds) =
     (case List.map_filter (\<lambda>(i, f). field_panic (ords i) f) (enumerate 0 flds) of
        p # later \<Rightarrow> Inl p
      | [] \<Rightarrow>
          Inr (let es = concat (map (\<lambda>(i, f). field_entries (ords i) f) (enumerate 0 flds))
               in if es = [] then NilError else IsValidationErrors es))"
  by (simp add: Validate_def Validate_loop_char split: list.splits)

lemma untagged_field_entries:
  "Tag_Lookup_validate f = None \<Longrightarrow> field_entries ord f = [] \<and> field_panic ord f = None"
  by (simp add: field_entries_def field_panic_def Validate_field_def)

lemma ValidationErrors_Error_loop_concat:
  "ValidationErrors_Error_loop res vs = res @ concat (map ValidationError_Error vs)"
  by (induction vs arbitrary: res) (simp_all add: ValidationError_Error_def)

text \<open>
  Claim C9. Whenever a checker of the dispatch table returns, it returns success with
  a nil error or a failure whose error is a \<open>ValidationError\<close>. So the branch of
  \<open>Validate\<close> that returns a checker's error as it is, is never taken, and whenever
  \<open>Validate\<close> returns, its result is nil, \<open>ErrNotStruct\<close>, or a non-empty
  \<open>ValidationErrors\<close>. (The runs that do not return are the panics of claims C1
  and C2 and of \<open>v.Int()\<close> on a field of kind Interface.)
\<close>

theorem Validate_never_returns_bare_checker_error:
  "(validators ord name = Some validator \<longrightarrow> validator fv param = Inr (ok, err) \<longrightarrow>
      (if ok then err = NilError else \<exists>ve. err = IsValidationError ve)) \<and>
   Validate_field ord curField vs \<noteq> Inr (Return err') \<and>
   (Validate ords v = Inr r \<longrightarrow>
      r = NilError \<or> r = PlainError ErrNotStruct \<or> (\<exists>es. es \<noteq> [] \<and> r = IsValidationErrors es))"
proof -
  have a: "if ok then err = NilError else \<exists>ve. err = IsValidationError ve"
    if "validators ord name = Some validator" "validator fv param = Inr (ok, err)"
    using validators_result [OF that(1), of fv "param"] that(2) by auto
  have b: "Validate_field ord curField vs \<noteq> Inr (Return err')"
    by (simp add: Validate_field_step split: option.splits)
  have c: "r = NilError \<or> r = PlainError ErrNotStruct \<or> (\<exists>es. es \<noteq> [] \<and> r = IsValidationErrors es)"
    if "Validate ords v = Inr r"
  proof (cases v)
    case NilInterface
    with that show ?thesis by (simp add: Validate_def)
  next
    case (Value kind flds)
    show ?thesis
    proof (cases "kind = Struct")
      case True
      with that Value show ?thesis
        by (auto simp: Validate_struct_char Let_def split: if_splits list.splits)
    next
      case False
      with that Value show ?thesis by (simp add: Validate_def)
    qed
  qed
  from a b c show ?thesis by blast
qed

theorem Validate_never_returns_bare_checker_error_witness:
  "validators remdups ''len'' = Some validateLen \<and>
   validateLen (GoString ''abcdef'') ''5'' =
     Inr (False, IsValidationError (ValidationError (errors_New ''lengths don't match''))) \<and>
   Validate (\<lambda>i. remdups)
     (Value Struct
       [\<lparr>Name = ''Higher'', IsExported = True, Tag_Lookup_validate = Some ''len:5'',
          FieldValue = GoString ''abcdef''\<rparr>]) =
     Inr (IsValidationErrors [ValidationError (errors_New ''lengths don't match'')]) \<and>
   Validate (\<lambda>i. remdups) (Value Map []) = Inr (PlainError ErrNotStruct) \<and>
   Validate (\<lambda>i. remdups) (Value Struct []) = Inr NilError"
  using Validate_never_returns_bare_checker_error
    [where ord = remdups and name = "''len''" and validator = validateLen
       and fv = "GoString ''abcdef''" and param = "''5''" and ok = False
       and err = "IsValidationError (ValidationError (errors_New ''lengths don't match''))"
       and ords = "\<lambda>i. remdups"
       and v = "Value Struct
         [\<lparr>Name = ''Higher'', IsExported = True, Tag_Lookup_validate = Some ''len:5'',
            FieldValue = GoString ''abcdef''\<rparr>]"
       and r = "IsValidationErrors [ValidationError (errors_New ''lengths don't match'')]"]
  by (simp add: eval_defs)

text \<open>
  Claim C5. For a struct, \<open>Validate\<close> ends in the panic of the first field whose
  evaluation panics, and otherwise returns the errors of its fields, concatenated in
  declaration order: nil when there are none, the aggregate otherwise, never an empty
  aggregate. A field contributes at most one error. A struct none of whose fields has
  a validate tag gives nil.
\<close>

theorem Validate_aggregate_per_field:
  "Validate ords (Value Struct flds) =
     (case List.map_filter (\<lambda>(i, f). field_panic (ords i) f) (enumerate 0 flds) of
        p # later \<Rightarrow> Inl p
      | [] \<Rightarrow>
          Inr (let es = concat (map (\<lambda>(i, f). field_entries (ords i) f) (enumerate 0 flds))
               in if es = [] then NilError else IsValidationErrors es)) \<and>
   length (field_entries ord curField) \<le> 1 \<and>
   ((\<forall>f \<in> set flds. Tag_Lookup_validate f = None) \<longrightarrow> Validate ords (Value Struct flds) = Inr NilError)"
proof -
  have "Validate ords (Value Struct flds) = Inr NilError"
    if untagged: "\<forall>f \<in> set flds. Tag_Lookup_validate f = None"
  proof -
    have each: "\<forall>(i, f) \<in> set (enumerate 0 flds). field_entries (ords i) f = [] \<and> field_panic (ords i) f = None"
      using untagged untagged_field_entries by (auto simp: in_set_enumerate_eq)
    then have "List.map_filter (\<lambda>(i, f). field_panic (ords i) f) (enumerate 0 flds) = []"
      by (auto simp: map_filter_def filter_empty_conv)
    moreover from each have "concat (map (\<lambda>(i, f). field_entries (ords i) f) (enumerate 0 flds)) = []"
      by auto
    ultimately show ?thesis
      by (simp add: Validate_struct_char)
  qed
  then show ?thesis
    using Validate_struct_char [of ords flds] field_entries_length [of ord curField] by blast
qed

theorem Validate_aggregate_per_field_witness:
  "Validate (\<lambda>i. remdups)
     (Value Struct
       [\<lparr>Name = ''f1'', IsExported = False, Tag_Lookup_validate = None, FieldValue = GoString ''x''\<rparr>,
        \<lparr>Name = ''Higher'', IsExported = True, Tag_Lookup_validate = Some ''len:5'',
          FieldValue = GoString ''abcdef''\<rparr>,
        \<lparr>Name = ''Field'', IsExported = True, Tag_Lookup_validate = Some ''in:ab,ba,cd'',
          FieldValue = GoStringSlice [''ba'', ''ka'', ''xx'']\<rparr>]) =
     Inr (IsValidationErrors
           [ValidationError (errors_New ''lengths don't match''),
            ValidationError (errors_Errorf ''The string on position %d is not allowed'' 1)]) \<and>
   field_entries remdups
     \<lparr>Name = ''Field'', IsExported = True, Tag_Lookup_validate = Some ''in:ab,ba,cd'',
       FieldValue = GoStringSlice [''ba'', ''ka'', ''xx'']\<rparr> =
     [ValidationError (errors_Errorf ''The string on position %d is not allowed'' 1)] \<and>
   Validate (\<lambda>i. remdups)
     (Value Struct
       [\<lparr>Name = ''F'', IsExported = True, Tag_Lookup_validate = Some ''len:5'',
          FieldValue = GoInterface ''interface {}'' (IsString ''hello'')\<rparr>]) =
     Inr (IsValidationErrors [ValidationError (errors_New ''lengths don't match'')]) \<and>
   Validate (\<lambda>i. remdups)
     (Value Struct
       [\<lparr>Name = ''Higher'', IsExported = True, Tag_Lookup_validate = Some ''len:5'',
          FieldValue = GoString ''abcdef''\<rparr>,
        \<lparr>Name = ''F'', IsExported = True, Tag_Lookup_validate = Some ''min:3'',
          FieldValue = GoInterface ''interface {}'' (IsInt 5)\<rparr>]) = Inl ReflectValueError \<and>
   Tag_Lookup_validate
     \<lparr>Name = ''f1'', IsExported = False, Tag_Lookup_validate = None, FieldValue = GoString ''x''\<rparr> = None \<and>
   Validate (\<lambda>i. remdups)
     (Value Struct
       [\<lparr>Name = ''f1'', IsExported = False, Tag_Lookup_validate = None, FieldValue = GoString ''x''\<rparr>]) =
     Inr NilError"
  using Validate_aggregate_per_field
    [of "\<lambda>i. remdups"
        "[\<lparr>Name = ''f1'', IsExported = False, Tag_Lookup_validate = None, FieldValue = GoString ''x''\<rparr>]"]
  by (simp add: eval_defs)

text \<open>
  Claim C8. When \<open>Validate\<close> returns an aggregate, the aggregate is not empty, it
  holds the errors of the struct's fields in declaration order, and its \<open>Error\<close>
  string is the messages of these errors one after the other, with nothing between
  them.
\<close>

theorem ValidationErrors_Error_concatenates:
  assumes "Validate ords v = Inr (IsValidationErrors vs)"
  shows "vs \<noteq> [] \<and>
         ValidationErrors_Error vs = concat (map ValidationError_Error vs) \<and>
         (\<exists>flds. v = Value Struct flds \<and>
            vs = concat (map (\<lambda>(i, f). field_entries (ords i) f) (enumerate 0 flds)))"
proof -
  from assms obtain flds where v: "v = Value Struct flds"
    by (cases v) (auto simp: Validate_def split: if_splits)
  from assms have "vs \<noteq> [] \<and> vs = concat (map (\<lambda>(i, f). field_entries (ords i) f) (enumerate 0 flds))"
    unfolding v Validate_struct_char by (auto simp: Let_def split: if_splits list.splits)
  moreover have "ValidationErrors_Error vs = concat (map ValidationError_Error vs)"
    by (simp add: ValidationErrors_Error_def ValidationErrors_Error_loop_concat)
  ultimately show ?thesis
    using v by blast
qed

theorem ValidationErrors_Error_concatenates_witness:
  "Validate (\<lambda>i. remdups)
     (Value Struct
       [\<lparr>Name = ''Higher'', IsExported = True, Tag_Lookup_validate = Some ''len:5'',
          FieldValue = GoString ''abcdef''\<rparr>,
        \<lparr>Name = ''Field'', IsExported = True, Tag_Lookup_validate = Some ''in:ab,ba,cd'',
          FieldValue = GoStringSlice [''ba'', ''ka'', ''xx'']\<rparr>]) =
     Inr (IsValidationErrors
           [ValidationError (errors_New ''lengths don't match''),
            ValidationError (errors_Errorf ''The string on position %d is not allowed'' 1)]) \<and>
   ValidationErrors_Error
     [ValidationError (errors_New ''lengths don't match''),
      ValidationError (errors_Errorf ''The string on position %d is not allowed'' 1)] =
     ''lengths don't matchThe string on position 1 is not allowed''"
proof -
  have returned: "Validate (\<lambda>i. remdups)
     (Value Struct
       [\<lparr>Name = ''Higher'', IsExported = True, Tag_Lookup_validate = Some ''len:5'',
          FieldValue = GoString ''abcdef''\<rparr>,
        \<lparr>Name = ''Field'', IsExported = True, Tag_Lookup_validate = Some ''in:ab,ba,cd'',
          FieldValue = GoStringSlice [''ba'', ''ka'', ''xx'']\<rparr>]) =
     Inr (IsValidationErrors
           [ValidationError (errors_New ''lengths don't match''),
            ValidationError (errors_Errorf ''The string on position %d is not allowed'' 1)])"
    by (simp add: eval_defs)
  have "ValidationErrors_Error
     [ValidationError (errors_New ''lengths don't match''),
      ValidationError (errors_Errorf ''The string on position %d is not allowed'' 1)] =
     ''lengths don't matchThe string on position 1 is not allowed''"
    using ValidationErrors_Error_concatenates [OF returned, THEN conjunct2, THEN conjunct1]
    by (simp add: ValidationError_Error_def itoa_def decimal.simps)
  with returned show ?thesis
    by (rule conjI)
qed

section \<open>Checks over slices\<close>

text \<open>
  \<open>spec_first_failing\<close> is the index of the first element that does not satisfy the
  constraint, and \<open>None\<close> exactly when every element satisfies it.
\<close>

lemma spec_first_failing_Cons:
  "spec_first_failing satisfies (x # xs) =
     (if satisfies x then map_option Suc (spec_first_failing satisfies xs) else Some 0)"
  by (simp add: spec_first_failing_def)

lemma spec_first_failing_iff:
  "spec_first_failing satisfies xs = Some i \<longleftrightarrow>
     i < length xs \<and> \<not> satisfies (xs ! i) \<and> (\<forall>j<i. satisfies (xs ! j))"
proof (induction xs arbitrary: i)
  case Nil
  show ?case by (simp add: spec_first_failing_def)
next
  case (Cons x xs)
  show ?case
  proof (cases "satisfies x")
    case False
    then show ?thesis
      by (cases i) (auto simp: spec_first_failing_Cons)
  next
    case True
    show ?thesis
    proof (cases i)
      case 0
      with True show ?thesis by (auto simp: spec_first_failing_Cons)
    next
      case (Suc m)
      have "(\<forall>j<Suc m. satisfies ((x # xs) ! j)) \<longleftrightarrow> (\<forall>j<m. satisfies (xs ! j))"
        using True by (auto simp: less_Suc_eq_0_disj)
      with True Suc Cons.IH [of m] show ?thesis
        by (auto simp: spec_first_failing_Cons)
    qed
  qed
qed

lemma spec_first_failing_None:
  "spec_first_failing satisfies xs = None \<longleftrightarrow> (\<forall>x \<in> set xs. satisfies x)"
  by (simp add: spec_first_failing_def list_all_iff)

lemma range_slice_from:
  "range_slice rejects format k xs =
     (case spec_first_failing (\<lambda>x. \<not> rejects x) xs of
        None \<Rightarrow> passed
      | Some i \<Rightarrow> failed (errors_Errorf format (int (k + i))))"
proof (induction xs arbitrary: k)
  case Nil
  show ?case by (simp add: spec_first_failing_def)
next
  case (Cons x xs)
  show ?case
    by (cases "spec_first_failing (\<lambda>x. \<not> rejects x) xs")
       (simp_all add: spec_first_failing_Cons Cons.IH)
qed

lemma range_slice_spec:
  assumes "\<And>x. satisfies x \<longleftrightarrow> \<not> rejects x"
  shows "range_slice rejects format 0 xs = spec_sequence_check satisfies format xs"
proof -
  from assms have "satisfies = (\<lambda>x. \<not> rejects x)"
    by auto
  then show ?thesis
    by (simp add: range_slice_from spec_sequence_check_def split: option.splits)
qed

lemma validateIn_tokensSetInt_all:
  "\<forall>key \<in> set keys. \<not> snd (Atoi key) \<Longrightarrow>
   validateIn_tokensSetInt keys acc = Some (acc \<union> (\<lambda>key. fst (Atoi key)) ` set keys)"
  by (induction keys arbitrary: acc) (auto split: prod.splits)

lemma Validate_field_failed:
  assumes v: "validators ord name = Some checker"
    and colon: "CHR '':'' \<notin> set param"
    and f: "IsExported f" "Tag_Lookup_validate f = Some (name @ '':'' @ param)"
    and r: "checker (FieldValue f) param = Inr (failed e)"
  shows "Validate_field ord f vs = Inr (Continue (vs @ [ValidationError e]))"
proof -
  from validators_cases [OF v] have "CHR '':'' \<notin> set name" by auto
  with colon have "strings_Split (name @ '':'' @ param) CHR '':'' = [name, param]"
    by (simp add: strings_Split_append strings_Split_no_sep)
  with v f r show ?thesis
    by (simp add: Validate_field_def)
qed

text \<open>
  Claim C6 says that every constraint over a \<open>[]string\<close> or \<open>[]int\<close> field reports
  the position of the first element that fails. The in checker with an empty
  parameter does not: it returns before the type switch, so for every slice, the
  empty one included, the failure is \<open>Field value isn't allowed\<close>, which names no
  position.
\<close>

theorem validateIn_empty_parameter_reports_no_position:
  "validateIn remdups (GoStringSlice [''a'', ''b'']) '''' =
     Inr (failed (errors_New ''Field value isn't allowed'')) \<and>
   validateIn remdups (GoIntSlice [1, 2]) '''' =
     Inr (failed (errors_New ''Field value isn't allowed'')) \<and>
   validateIn remdups (GoStringSlice []) '''' =
     Inr (failed (errors_New ''Field value isn't allowed'')) \<and>
   Validate (\<lambda>i. remdups)
     (Value Struct
       [\<lparr>Name = ''Field'', IsExported = True, Tag_Lookup_validate = Some ''in:'',
          FieldValue = GoStringSlice [''a'', ''b'']\<rparr>]) =
     Inr (IsValidationErrors [ValidationError (errors_New ''Field value isn't allowed'')]) \<and>
   ValidationErrors_Error [ValidationError (errors_New ''Field value isn't allowed'')] =
     ''Field value isn't allowed''"
  by (simp add: eval_defs ValidationErrors_Error_def)

text \<open>
  Claim C6, amended. With an empty parameter, in returns the value failure
  \<open>Field value isn't allowed\<close> for every sequence. In every other case where the
  parameter is accepted (an integer for len, min and max; two leading integer limits
  for between; a non-empty parameter for in, with every token an integer for an
  \<open>[]int\<close> field), the checker over a \<open>[]string\<close> or \<open>[]int\<close> value (len:
  \<open>[]string\<close> only), held by the field or by an interface in it, returns what the
  spec asks for: success when every element satisfies the constraint, and otherwise
  the one failure whose position is the 0-based index of the first element that does
  not, whatever follows that element. A field whose checker returns a failure adds
  exactly that one error to the collected errors.
\<close>

theorem sequence_check_reports_first_failing_element:
  assumes strs: "Value_Interface sv = IsStringSlice strs"
    and ints: "Value_Interface iv = IsIntSlice ints"
  shows
   "validateIn ord sv [] = Inr (failed (errors_New ''Field value isn't allowed'')) \<and>
    validateIn ord iv [] = Inr (failed (errors_New ''Field value isn't allowed'')) \<and>
    (Atoi param = (n, False) \<longrightarrow>
       validateLen sv param =
         Inr (spec_sequence_check (\<lambda>elem. int (length elem) = n)
                ''The string on position %d is shorter than allowed'' strs) \<and>
       validateMin sv param =
         Inr (spec_sequence_check (\<lambda>elem. int (length elem) \<ge> n)
                ''The string on position %d is shorter than allowed'' strs) \<and>
       validateMin iv param =
         Inr (spec_sequence_check (\<lambda>elem. elem \<ge> n)
                ''The integer on position %d is less than allowed'' ints) \<and>
       validateMax sv param =
         Inr (spec_sequence_check (\<lambda>elem. int (length elem) \<le> n)
                ''The string on position %d is longer than allowed'' strs) \<and>
       validateMax iv param =
         Inr (spec_sequence_check (\<lambda>elem. elem \<le> n)
                ''The integer on position %d is more than allowed'' ints)) \<and>
    (strings_Split param CHR '','' = lo_text # hi_text # extra \<longrightarrow>
     Atoi lo_text = (lo, False) \<longrightarrow> Atoi hi_text = (hi, False) \<longrightarrow>
       validateBetween sv param =
         Inr (spec_sequence_check (\<lambda>elem. lo \<le> int (length elem) \<and> int (length elem) \<le> hi)
                ''The string on position %d is longer than allowed'' strs) \<and>
       validateBetween iv param =
         Inr (spec_sequence_check (\<lambda>elem. lo \<le> elem \<and> elem \<le> hi)
                ''The integer on position %d is more than allowed'' ints)) \<and>
    (param \<noteq> [] \<longrightarrow>
       validateIn ord sv param =
         Inr (spec_sequence_check (\<lambda>elem. elem \<in> set (strings_Split param CHR '',''))
                ''The string on position %d is not allowed'' strs)) \<and>
    (param \<noteq> [] \<longrightarrow> range_order_ok ord (strings_Split param CHR '','') \<longrightarrow>
     (\<forall>token \<in> set (strings_Split param CHR '',''). \<not> snd (Atoi token)) \<longrightarrow>
       validateIn ord iv param =
         Inr (spec_sequence_check
                (\<lambda>elem. elem \<in> (\<lambda>token. fst (Atoi token)) ` set (strings_Split param CHR '',''))
                ''The integer on position %d is less than allowed'' ints)) \<and>
    (validators ord name = Some checker \<longrightarrow> CHR '':'' \<notin> set param \<longrightarrow>
     IsExported curField \<longrightarrow> Tag_Lookup_validate curField = Some (name @ '':'' @ param) \<longrightarrow>
     checker (FieldValue curField) param = Inr (failed e) \<longrightarrow>
       Validate_field ord curField vs = Inr (Continue (vs @ [ValidationError e])))"
proof (intro conjI impI)
  show "validateIn ord sv [] = Inr (failed (errors_New ''Field value isn't allowed''))"
    by (simp add: validateIn_def)
next
  show "validateIn ord iv [] = Inr (failed (errors_New ''Field value isn't allowed''))"
    by (simp add: validateIn_def)
next
  assume "Atoi param = (n, False)"
  then show "validateLen sv param =
         Inr (spec_sequence_check (\<lambda>elem. int (length elem) = n)
                ''The string on position %d is shorter than allowed'' strs)"
    by (simp add: validateLen_def strs range_slice_spec)
next
  assume "Atoi param = (n, False)"
  then show "validateMin sv param =
         Inr (spec_sequence_check (\<lambda>elem. int (length elem) \<ge> n)
                ''The string on position %d is shorter than allowed'' strs)"
    by (simp add: validateMin_def strs range_slice_spec not_less)
next
  assume "Atoi param = (n, False)"
  then show "validateMin iv param =
         Inr (spec_sequence_check (\<lambda>elem. elem \<ge> n)
                ''The integer on position %d is less than allowed'' ints)"
    by (simp add: validateMin_def ints range_slice_spec not_less)
next
  assume "Atoi param = (n, False)"
  then show "validateMax sv param =
         Inr (spec_sequence_check (\<lambda>elem. int (length elem) \<le> n)
                ''The string on position %d is longer than allowed'' strs)"
    by (simp add: validateMax_def strs range_slice_spec not_less)
next
  assume "Atoi param = (n, False)"
  then show "validateMax iv param =
         Inr (spec_sequence_check (\<lambda>elem. elem \<le> n)
                ''The integer on position %d is more than allowed'' ints)"
    by (simp add: validateMax_def ints range_slice_spec not_less)
next
  assume "strings_Split param CHR '','' = lo_text # hi_text # extra"
    "Atoi lo_text = (lo, False)" "Atoi hi_text = (hi, False)"
  then show "validateBetween sv param =
         Inr (spec_sequence_check (\<lambda>elem. lo \<le> int (length elem) \<and> int (length elem) \<le> hi)
                ''The string on position %d is longer than allowed'' strs)"
    by (simp add: validateBetween_def index_def strs)
       (rule range_slice_spec, auto)
next
  assume "strings_Split param CHR '','' = lo_text # hi_text # extra"
    "Atoi lo_text = (lo, False)" "Atoi hi_text = (hi, False)"
  then show "validateBetween iv param =
         Inr (spec_sequence_check (\<lambda>elem. lo \<le> elem \<and> elem \<le> hi)
                ''The integer on position %d is more than allowed'' ints)"
    by (simp add: validateBetween_def index_def ints)
       (rule range_slice_spec, auto)
next
  assume "param \<noteq> []"
  then show "validateIn ord sv param =
         Inr (spec_sequence_check (\<lambda>elem. elem \<in> set (strings_Split param CHR '',''))
                ''The string on position %d is not allowed'' strs)"
    by (simp add: validateIn_def strs range_slice_spec)
next
  assume "param \<noteq> []" "range_order_ok ord (strings_Split param CHR '','')"
    "\<forall>token \<in> set (strings_Split param CHR '',''). \<not> snd (Atoi token)"
  then show "validateIn ord iv param =
         Inr (spec_sequence_check
                (\<lambda>elem. elem \<in> (\<lambda>token. fst (Atoi token)) ` set (strings_Split param CHR '',''))
                ''The integer on position %d is less than allowed'' ints)"
    using validateIn_tokensSetInt_all [of "ord (strings_Split param CHR '','')" "{}"]
    by (simp add: validateIn_def ints range_slice_spec range_order_ok_def)
next
  assume "validators ord name = Some checker" "CHR '':'' \<notin> set param"
    "IsExported curField" "Tag_Lookup_validate curField = Some (name @ '':'' @ param)"
    "checker (FieldValue curField) param = Inr (failed e)"
  then show "Validate_field ord curField vs = Inr (Continue (vs @ [ValidationError e]))"
    by (rule Validate_field_failed)
qed

theorem sequence_check_reports_first_failing_element_witness:
  "Value_Interface (GoStringSlice [''ba'', ''ka'', ''xx'']) = IsStringSlice [''ba'', ''ka'', ''xx''] \<and>
   Value_Interface (GoInterface ''interface {}'' (IsIntSlice [5, 1, 0])) = IsIntSlice [5, 1, 0] \<and>
   Atoi ''3'' = (3, False) \<and>
   spec_first_failing (\<lambda>elem. elem \<ge> (3::int)) [5, 1, 0] = Some 1 \<and>
   validateMin (GoInterface ''interface {}'' (IsIntSlice [5, 1, 0])) ''3'' =
     Inr (failed (errors_Errorf ''The integer on position %d is less than allowed'' 1)) \<and>
   validateMax (GoStringSlice [''ba'', ''ka'', ''xx'']) ''3'' = Inr passed \<and>
   strings_Split ''1,1,9'' CHR '','' = [''1'', ''1'', ''9''] \<and>
   validateBetween (GoStringSlice [''ba'', ''ka'', ''xx'']) ''1,1,9'' =
     Inr (failed (errors_Errorf ''The string on position %d is longer than allowed'' 0)) \<and>
   validateIn remdups (GoStringSlice [''ba'', ''ka'', ''xx'']) ''ab,ba,cd'' =
     Inr (failed (errors_Errorf ''The string on position %d is not allowed'' 1)) \<and>
   range_order_ok remdups (strings_Split ''5,7'' CHR '','') \<and>
   validateIn remdups (GoInterface ''interface {}'' (IsIntSlice [5, 1, 0])) ''5,7'' =
     Inr (failed (errors_Errorf ''The integer on position %d is less than allowed'' 1)) \<and>
   validators remdups ''in'' = Some (validateIn remdups) \<and>
   Validate_field remdups
     \<lparr>Name = ''Field'', IsExported = True, Tag_Lookup_validate = Some (''in'' @ '':'' @ ''ab,ba,cd''),
       FieldValue = GoStringSlice [''ba'', ''ka'', ''xx'']\<rparr> [] =
     Inr (Continue [ValidationError (errors_Errorf ''The string on position %d is not allowed'' 1)])"
  using sequence_check_reports_first_failing_element
    [where sv = "GoStringSlice [''ba'', ''ka'', ''xx'']" and strs = "[''ba'', ''ka'', ''xx'']"
       and iv = "GoInterface ''interface {}'' (IsIntSlice [5, 1, 0])" and ints = "[5, 1, 0]"
       and param = "''3''" and n = 3]
    sequence_check_reports_first_failing_element
    [where sv = "GoStringSlice [''ba'', ''ka'', ''xx'']" and strs = "[''ba'', ''ka'', ''xx'']"
       and iv = "GoInterface ''interface {}'' (IsIntSlice [5, 1, 0])" and ints = "[5, 1, 0]"
       and param = "''1,1,9''" and lo_text = "''1''" and hi_text = "''1''" and extra = "[''9'']"
       and lo = 1 and hi = 1]
    sequence_check_reports_first_failing_element
    [where sv = "GoStringSlice [''ba'', ''ka'', ''xx'']" and strs = "[''ba'', ''ka'', ''xx'']"
       and iv = "GoInterface ''interface {}'' (IsIntSlice [5, 1, 0])" and ints = "[5, 1, 0]"
       and param = "''ab,ba,cd''" and ord = remdups and name = "''in''"
       and checker = "validateIn remdups"
       and curField = "\<lparr>Name = ''Field'', IsExported = True,
             Tag_Lookup_validate = Some (''in'' @ '':'' @ ''ab,ba,cd''),
             FieldValue = GoStringSlice [''ba'', ''ka'', ''xx'']\<rparr>"
       and e = "errors_Errorf ''The string on position %d is not allowed'' 1" and vs = "[]"]
    sequence_check_reports_first_failing_element
    [where sv = "GoStringSlice [''ba'', ''ka'', ''xx'']" and strs = "[''ba'', ''ka'', ''xx'']"
       and iv = "GoInterface ''interface {}'' (IsIntSlice [5, 1, 0])" and ints = "[5, 1, 0]"
       and param = "''5,7''" and ord = remdups]
  by (simp add: eval_defs range_order_ok_def spec_first_failing_def spec_sequence_check_def)

section \<open>Membership for an int field and the map order\<close>

lemma validateIn_int_loop_unparsed:
  "\<exists>t \<in> set keys. snd (Atoi t) \<Longrightarrow> \<forall>t \<in> set keys. \<not> snd (Atoi t) \<longrightarrow> fst (Atoi t) \<noteq> n \<Longrightarrow>
   validateIn_int_loop (GoInt n) n keys = Inr (failed ErrInvalidValidatorSyntax)"
  by (induction keys) (auto simp: Value_Int_def split: prod.splits)

lemma validateIn_int_unparsed_token_no_match:
  assumes "value \<noteq> []"
    and "range_order_ok ord (strings_Split value CHR '','')"
    and "\<exists>t \<in> set (strings_Split value CHR '',''). snd (Atoi t)"
    and "\<forall>t \<in> set (strings_Split value CHR '',''). \<not> snd (Atoi t) \<longrightarrow> fst (Atoi t) \<noteq> n"
  shows "validateIn ord (GoInt n) value = Inr (failed ErrInvalidValidatorSyntax)"
  using assms validateIn_int_loop_unparsed [of "ord (strings_Split value CHR '','')" n]
  by (simp add: validateIn_def range_order_ok_def)

text \<open>
  Claim C3. For an \<open>int\<close> field, a token of the in parameter that does not parse
  should give \<open>ErrInvalidValidatorSyntax\<close> whether or not another token equals the
  field's value. The loop parses the keys of \<open>tokensSet\<close> one by one in map order
  and returns success at the first key equal to the value: with the parameter
  \<open>5,x\<close> and the value 5 the checker succeeds when the key \<open>5\<close> is visited first
  and fails with the syntax error when \<open>x\<close> is. For an \<open>[]int\<close> field the checker
  parses every key before it looks at the value. When no key equals the value the
  syntax error is returned in every order (\<open>validateIn_int_unparsed_token_no_match\<close>).
\<close>

theorem validateIn_int_returns_before_unparsed_token:
  "strings_Split ''5,x'' CHR '','' = [''5'', ''x''] \<and>
   Atoi ''x'' = (0, True) \<and>
   range_order_ok remdups (strings_Split ''5,x'' CHR '','') \<and>
   validateIn remdups (GoInt 5) ''5,x'' = Inr passed \<and>
   range_order_ok (\<lambda>tokens. rev (remdups tokens)) (strings_Split ''5,x'' CHR '','') \<and>
   validateIn (\<lambda>tokens. rev (remdups tokens)) (GoInt 5) ''5,x'' = Inr (failed ErrInvalidValidatorSyntax) \<and>
   validateIn remdups (GoIntSlice [5]) ''5,x'' = Inr (failed ErrInvalidValidatorSyntax)"
  by (auto simp: eval_defs range_order_ok_def)

text \<open>
  Claim C7. Validating the same record twice should give the same result. The model
  is a function of the record and the map order, and it has no state, so the input
  is never changed; but the result depends on the map order, which Go does not fix
  from one call to the next: the same record gives nil under one order of the keys
  of \<open>tokensSet\<close> and a syntax failure under another.
\<close>

theorem Validate_result_varies_with_map_order:
  "range_order_ok remdups (strings_Split ''5,x'' CHR '','') \<and>
   range_order_ok (\<lambda>tokens. rev (remdups tokens)) (strings_Split ''5,x'' CHR '','') \<and>
   Validate (\<lambda>i. remdups)
     (Value Struct [\<lparr>Name = ''InD'', IsExported = True, Tag_Lookup_validate = Some ''in:5,x'',
                     FieldValue = GoInt 5\<rparr>]) = Inr NilError \<and>
   Validate (\<lambda>i tokens. rev (remdups tokens))
     (Value Struct [\<lparr>Name = ''InD'', IsExported = True, Tag_Lookup_validate = Some ''in:5,x'',
                     FieldValue = GoInt 5\<rparr>]) =
     Inr (IsValidationErrors [ValidationError ErrInvalidValidatorSyntax])"
  by (auto simp: eval_defs range_order_ok_def)

end
